theory Spec2Isabelle
  imports Main "HOL-Library.Word"
begin

unbundle bit_operations_syntax

section \<open>Data model\<close>

text \<open>
  A Go \<open>[]byte\<close> (and the memory-mapped index and data files of a pack) is a list of
  8-bit words. \<open>uint32\<close> and \<open>uint64\<close> are 32- and 64-bit words, whose arithmetic wraps
  as Go's does. Go's \<open>uint\<close> and \<open>int\<close> values that only count positions inside a slice
  are natural numbers: a slice holds fewer than \<open>2^63\<close> bytes, so they never wrap.
\<close>

type_synonym byte = "8 word"
type_synonym bytes = "byte list"
type_synonym uint32 = "32 word"
type_synonym uint64 = "64 word"

text \<open>
  The error values of the package (\<open>ErrNotExist\<close> of object.go, \<open>ErrBadDelta\<close> and
  \<open>ErrUnknownType\<close> of pack.go, \<open>ErrUnknownRef\<close> of repo.go), the errors handed up from
  the standard library (\<open>encoding/hex\<close>, \<open>compress/zlib\<close>, \<open>os\<close> and \<open>io/ioutil\<close>,
  \<open>io.EOF\<close>, \<open>strconv\<close>), and the run-time panic that Go raises on an index or a slice bound out of range. A panic
  is not an \<open>error\<close> value in Go: it unwinds the stack and, as nothing in the package
  recovers, ends the program.
\<close>

datatype error =
    ErrNotExist
  | ErrBadDelta
  | ErrUnknownType
  | ErrUnknownRef
  | ErrHex
  | ErrZlib
  | ErrIO
  | ErrEOF
  | ErrParse
  | Panic

text \<open>
  A reader (\<open>io.Reader\<close>, \<open>io.ReadCloser\<close>) is the bytes it delivers and what ends it:
  \<open>None\<close> for the end of the stream, or the error that breaks it off.
  \<open>ioutil.ReadAll\<close> returns the bytes of a stream that ends and the error of one that
  breaks off.
\<close>

type_synonym reader = "bytes \<times> error option"

definition ReadAll :: "reader \<Rightarrow> error + bytes" where
  "ReadAll r = (case snd r of None \<Rightarrow> Inr (fst r) | Some e \<Rightarrow> Inl e)"

text \<open>
  \<open>compress/zlib\<close> is outside the repository and is a parameter of the model:
  \<open>z buf\<close> is \<open>Inl e\<close> when \<open>zlib.NewReader\<close> rejects the stream's header, and otherwise
  \<open>Inr r\<close>, the reader that inflates the stream at the front of \<open>buf\<close>.
\<close>

type_synonym zlib = "bytes \<Rightarrow> error + reader"

section \<open>decodeVarint (pack.go, 343-355)\<close>

text \<open>
  The loop reads \<open>buf[n]\<close> with no test of \<open>n\<close> against \<open>len(buf)\<close>; the index
  expression panics when it is out of range. \<open>uint64(b&0x7F) << shift\<close> drops the bits
  shifted past bit 63, as \<open>push_bit\<close> on a 64-bit word does.
\<close>

function decodeVarint_loop :: "bytes \<Rightarrow> uint64 \<Rightarrow> nat \<Rightarrow> nat \<Rightarrow> error + (uint64 \<times> nat)" where
  "decodeVarint_loop buf x shift n =
     (if n < length buf then
        (let b = buf ! n;
             x' = x OR push_bit shift (ucast (b AND 0x7F))
         in if b AND 0x80 = 0 then Inr (x', n + 1)
            else decodeVarint_loop buf x' (shift + 7) (n + 1))
      else Inl Panic)"
  by pat_completeness auto
termination
  by (relation "measure (\<lambda>(buf, x, shift, n). length buf - n)") auto

declare decodeVarint_loop.simps [simp del]

definition decodeVarint :: "bytes \<Rightarrow> error + (uint64 \<times> nat)" where
  "decodeVarint buf = decodeVarint_loop buf 0 0 0"

section \<open>Entry header (pack.go, 196-208)\<close>

text \<open>
  In Go the operators \<open>&\<close> and \<open>>>\<close> have the same precedence and associate to the
  left, so \<open>objHeader & 0x71 >> 4\<close> is \<open>(objHeader & 0x71) >> 4\<close>.
\<close>

definition objTypeOf :: "byte \<Rightarrow> nat" where
  "objTypeOf objHeader = unat (drop_bit 4 (objHeader AND 0x71))"

definition objSizeLow :: "byte \<Rightarrow> uint64" where
  "objSizeLow objHeader = ucast (objHeader AND 0x0F)"

section \<open>applyDelta (pack.go, 271-341)\<close>

text \<open>
  Go's built-in \<open>copy(dst, src)\<close> with \<open>dst = result[loc:]\<close>: it copies
  \<open>min(len(dst), len(src))\<close> bytes and never fails. The caller has made sure that
  \<open>loc \<le> len(result)\<close>, since slicing \<open>result[loc:]\<close> panics otherwise.
\<close>

definition copy_at :: "bytes \<Rightarrow> nat \<Rightarrow> bytes \<Rightarrow> bytes" where
  "copy_at result loc src =
     (let k = min (length result - loc) (length src)
      in take loc result @ take k src @ drop (loc + k) result)"

text \<open>
  The two inner loops of the copy instruction,
  \<open>for j := uint(0); j < 4; j++ { if op&(1<<j) != 0 { x := patch[i]; i++; copyOffset |= uint(x) << (j*8) } }\<close>
  and the same for \<open>copyLength\<close> with the bits \<open>1<<(4+j)\<close>, \<open>j < 3\<close>. The list holds the
  values of \<open>j\<close> still to come, \<open>k\<close> is 0 or 4, and the state is \<open>(i, acc)\<close>.
  \<open>patch[i]\<close> panics when \<open>i\<close> is not below \<open>len(patch)\<close>.
\<close>

fun read_field :: "byte \<Rightarrow> bytes \<Rightarrow> nat \<Rightarrow> nat list \<Rightarrow> nat \<Rightarrow> nat \<Rightarrow> error + (nat \<times> nat)" where
  "read_field op patch k [] i acc = Inr (i, acc)"
| "read_field op patch k (j # js) i acc =
     (if op AND push_bit (k + j) 1 \<noteq> 0 then
        (if i < length patch
         then read_field op patch k js (i + 1) (acc OR push_bit (j * 8) (unat (patch ! i)))
         else Inl Panic)
      else read_field op patch k js i acc)"

text \<open>
  The main loop, \<open>for len(patch) > 0 { ... }\<close>. Its state is the rest of the patch, the
  result buffer and the write cursor \<open>loc\<close>; on leaving the loop the model hands back the
  buffer together with the final cursor.

  Insert: \<open>result[loc:]\<close> panics when \<open>loc > len(result)\<close>; a literal that runs past the
  end of the patch panics as well (at \<open>patch[i:i+n]\<close> when \<open>i+n\<close> exceeds the capacity,
  and at \<open>patch = patch[i+n:]\<close> in any case). \<open>copy\<close> itself stores only what fits, and
  \<open>loc\<close> advances by \<open>n\<close> all the same.

  Copy: the test \<open>copyOffset+copyLength > uint(len(base)) || copyLength > uint(len(result[loc:]))\<close>
  evaluates its first operand first; \<open>result[loc:]\<close> in the second panics when \<open>loc > len(result)\<close>.
  \<open>patch = patch[i:]\<close> cannot panic, as every \<open>i++\<close> follows a successful \<open>patch[i]\<close>.
\<close>

lemma read_field_index_mono:
  "read_field op patch k js i acc = Inr (i', a) \<Longrightarrow> i \<le> i'"
proof (induction js arbitrary: i acc)
  case Nil
  then show ?case by simp
next
  case (Cons j js)
  then show ?case
    by (fastforce split: if_splits)
qed

function apply_loop :: "bytes \<Rightarrow> bytes \<Rightarrow> bytes \<Rightarrow> nat \<Rightarrow> error + (bytes \<times> nat)" where
  "apply_loop base patch result loc =
     (if length patch > 0 then
        (let op = patch ! 0 in
         if op = 0 then Inl ErrBadDelta
         else if op AND 0x80 = 0 then
           (let n = unat op in
            if loc > length result then Inl Panic
            else if 1 + n > length patch then Inl Panic
            else apply_loop base (drop (1 + n) patch)
                   (copy_at result loc (take n (drop 1 patch))) (loc + n))
         else
           (case read_field op patch 0 [0, 1, 2, 3] 1 0 of
              Inl e \<Rightarrow> Inl e
            | Inr (i, copyOffset) \<Rightarrow>
               (case read_field op patch 4 [0, 1, 2] i 0 of
                  Inl e \<Rightarrow> Inl e
                | Inr (i', copyLength0) \<Rightarrow>
                   (let copyLength = (if copyLength0 = 0 then 2 ^ 16 else copyLength0) in
                    if copyOffset + copyLength > length base then Inl ErrBadDelta
                    else if loc > length result then Inl Panic
                    else if copyLength > length result - loc then Inl ErrBadDelta
                    else apply_loop base (drop i' patch)
                           (copy_at result loc (take copyLength (drop copyOffset base)))
                           (loc + copyLength)))))
      else Inr (result, loc))"
  by pat_completeness auto
termination
proof (relation "measure (\<lambda>(base, patch, result, loc). length patch)", goal_cases)
  case 1
  show ?case by simp
next
  case (2 base patch result loc op n)
  then show ?case by simp
next
  case (3 base patch result loc op r i copyOffset r' i' copyLength0 copyLength)
  from 3 have "read_field op patch 0 [0, 1, 2, 3] 1 0 = Inr (i, copyOffset)"
    and "read_field op patch 4 [0, 1, 2] i 0 = Inr (i', copyLength0)"
    by (simp_all del: read_field.simps)
  then have "1 \<le> i" and "i \<le> i'"
    by (blast dest: read_field_index_mono)+
  with 3 show ?case by (simp del: read_field.simps)
qed

declare apply_loop.simps [simp del]

text \<open>
  \<open>applyDelta_bytes\<close> is the body of \<open>applyDelta\<close> after the two \<open>ioutil.ReadAll\<close> calls.
  \<open>patch[n:]\<close> cannot panic: \<open>decodeVarint\<close> returns \<open>n \<le> len(patch)\<close>.
  Besides the buffer and \<open>resultLength\<close>, which the source returns, the model returns
  the final write cursor.

  \<open>make([]byte, resultLength)\<close> gives \<open>resultLength\<close> zero bytes, or panics
  (\<open>makeslice: len out of range\<close>): a length of \<open>2^63\<close> or more does not fit an \<open>int\<close>,
  and the run time refuses every length above its constant \<open>maxAlloc\<close>, which is \<open>2^48\<close>
  bytes on 64-bit Linux. A length within that limit which the machine has no memory for
  ends the program with a fatal error of the run time; the model has no value for
  that and takes such an allocation to succeed.
\<close>

definition maxAlloc :: uint64 where
  "maxAlloc = 0x1000000000000"

definition make_bytes :: "uint64 \<Rightarrow> error + bytes" where
  "make_bytes n = (if n > maxAlloc then Inl Panic else Inr (replicate (unat n) 0))"

definition applyDelta_bytes :: "bytes \<Rightarrow> bytes \<Rightarrow> error + (bytes \<times> uint64 \<times> nat)" where
  "applyDelta_bytes base patch =
     (case decodeVarint patch of
        Inl e \<Rightarrow> Inl e
      | Inr (baseLength, n) \<Rightarrow>
         if baseLength \<noteq> of_nat (length base) then Inl ErrBadDelta
         else
           (let patch1 = drop n patch in
            case decodeVarint patch1 of
              Inl e \<Rightarrow> Inl e
            | Inr (resultLength, n') \<Rightarrow>
               (let patch2 = drop n' patch1 in
                case make_bytes resultLength of
                  Inl e \<Rightarrow> Inl e
                | Inr result \<Rightarrow>
                   (case apply_loop base patch2 result 0 of
                      Inl e \<Rightarrow> Inl e
                    | Inr (result', loc) \<Rightarrow> Inr (result', resultLength, loc)))))"

text \<open>
  \<open>applyDelta\<close> itself: the patch is read first, then the base; the reader it returns,
  \<open>closableReader{bytes.NewReader(result)}\<close>, delivers the buffer and ends.
\<close>

definition applyDelta :: "reader \<Rightarrow> reader \<Rightarrow> error + (reader \<times> uint64)" where
  "applyDelta base_r patch_r =
     (case ReadAll patch_r of
        Inl e \<Rightarrow> Inl e
      | Inr patch \<Rightarrow>
         (case ReadAll base_r of
            Inl e \<Rightarrow> Inl e
          | Inr base \<Rightarrow>
             (case applyDelta_bytes base patch of
                Inl e \<Rightarrow> Inl e
              | Inr (result, resultLength, loc) \<Rightarrow> Inr ((result, None), resultLength))))"

section \<open>Slices, big-endian words, comparison and hexadecimal\<close>

text \<open>
  The slice expressions \<open>s[lo:hi]\<close> and \<open>s[lo:]\<close> of Go panic when the bounds are not
  ordered or exceed the capacity. The memory-mapped files are slices whose capacity
  is their length, and so is every slice taken from them up to their end.
\<close>

definition slice :: "bytes \<Rightarrow> nat \<Rightarrow> nat \<Rightarrow> error + bytes" where
  "slice s lo hi = (if lo \<le> hi \<and> hi \<le> length s then Inr (take (hi - lo) (drop lo s)) else Inl Panic)"

definition slice_from :: "bytes \<Rightarrow> nat \<Rightarrow> error + bytes" where
  "slice_from s lo = (if lo \<le> length s then Inr (drop lo s) else Inl Panic)"

text \<open>
  \<open>binary.BigEndian.Uint32(b)\<close> (the variable \<open>order\<close> of pack.go); it begins with
  \<open>_ = b[3]\<close>, which panics on fewer than four bytes.
\<close>

definition Uint32 :: "bytes \<Rightarrow> error + uint32" where
  "Uint32 b =
     (if length b < 4 then Inl Panic
      else Inr (ucast (b ! 3) OR push_bit 8 (ucast (b ! 2)) OR push_bit 16 (ucast (b ! 1))
                OR push_bit 24 (ucast (b ! 0))))"

text \<open>\<open>order.Uint32(s[k:])\<close>.\<close>

definition Uint32_at :: "bytes \<Rightarrow> nat \<Rightarrow> error + uint32" where
  "Uint32_at s k = (case slice_from s k of Inl e \<Rightarrow> Inl e | Inr b \<Rightarrow> Uint32 b)"

text \<open>\<open>bytes.Compare\<close>: lexicographic on unsigned bytes, with results -1, 0 and 1.\<close>

fun bytes_Compare :: "bytes \<Rightarrow> bytes \<Rightarrow> int" where
  "bytes_Compare [] [] = 0"
| "bytes_Compare [] (b # bs) = - 1"
| "bytes_Compare (a # as) [] = 1"
| "bytes_Compare (a # as) (b # bs) =
     (if a < b then - 1 else if b < a then 1 else bytes_Compare as bs)"

text \<open>
  A Go string is a sequence of bytes, here a \<open>string\<close>; \<open>byte_of\<close> is the byte value of
  one of its characters. \<open>hex.DecodeString\<close> accepts digits and letters of both cases
  and fails on any other character and on an odd length (both errors are \<open>ErrHex\<close>
  here); \<open>hex.EncodeToString\<close> writes lower-case digits.
\<close>

definition byte_of :: "char \<Rightarrow> byte" where
  "byte_of c = of_nat (of_char c)"

definition fromHexChar :: "char \<Rightarrow> byte option" where
  "fromHexChar c =
     (let v = (of_char c :: nat) in
      if 48 \<le> v \<and> v \<le> 57 then Some (of_nat (v - 48))
      else if 97 \<le> v \<and> v \<le> 102 then Some (of_nat (v - 97 + 10))
      else if 65 \<le> v \<and> v \<le> 70 then Some (of_nat (v - 65 + 10))
      else None)"

fun hex_DecodeString :: "string \<Rightarrow> error + bytes" where
  "hex_DecodeString [] = Inr []"
| "hex_DecodeString [p] = Inl ErrHex"
| "hex_DecodeString (p # q # rest) =
     (case fromHexChar p of
        None \<Rightarrow> Inl ErrHex
      | Some a \<Rightarrow>
         (case fromHexChar q of
            None \<Rightarrow> Inl ErrHex
          | Some b \<Rightarrow>
             (case hex_DecodeString rest of
                Inl e \<Rightarrow> Inl e
              | Inr bs \<Rightarrow> Inr ((push_bit 4 a OR b) # bs))))"

definition hextable :: string where
  "hextable = ''0123456789abcdef''"

fun hex_EncodeToString :: "bytes \<Rightarrow> string" where
  "hex_EncodeToString [] = []"
| "hex_EncodeToString (v # vs) =
     hextable ! unat (drop_bit 4 v) # hextable ! unat (v AND 0x0F) # hex_EncodeToString vs"

section \<open>Pack and FindOffset (pack.go, 42-50 and 116-154)\<close>

text \<open>The two memory-mapped files of a pack; paths and file handles play no part.\<close>

record Pack =
  index :: bytes
  data :: bytes

text \<open>
  The binary search of \<open>FindOffset\<close>. The source slices and compares once before its
  \<open>for\<close> statement and again in the post statement of every round; \<open>search\<close> is
  the same loop entered at the slicing of \<open>suspect\<close>, with \<open>lo\<close>, \<open>hi\<close> and \<open>cnt\<close>
  as its state (\<open>loc\<close>, \<open>suspect\<close> and \<open>cmp\<close> are functions of \<open>cnt\<close>). All arithmetic is
  \<open>uint32\<close> and wraps. On a match it yields \<open>loc\<close>.

  The loop need not end (\<open>lo = 1\<close>, \<open>hi = 2^32 - 1\<close> gives \<open>cnt = 0\<close> again and again), so
  it runs on fuel, \<open>None\<close> standing for no return. Beside the result the model records
  the probes: the values of \<open>cnt\<close> at which a 20-byte span of the index was compared
  with the target, in order.
\<close>

fun search ::
  "nat \<Rightarrow> bytes \<Rightarrow> bytes \<Rightarrow> uint32 \<Rightarrow> uint32 \<Rightarrow> uint32 \<Rightarrow> (uint32 list \<times> (error + uint32)) option"
where
  "search 0 idx idBytes lo hi cnt = None"
| "search (Suc fuel) idx idBytes lo hi cnt =
     (let loc = 8 + 1024 + cnt * 20 in
      case slice idx (unat loc) (unat (loc + 20)) of
        Inl e \<Rightarrow> Some ([], Inl e)
      | Inr suspect \<Rightarrow>
         (let cmp = bytes_Compare idBytes suspect in
          if cmp = 0 then Some ([cnt], Inr loc)
          else
            (let lo' = (if cmp < 0 then lo else cnt + 1);
                 hi' = (if cmp < 0 then cnt else hi)
             in if lo' \<ge> hi' then Some ([cnt], Inl ErrNotExist)
                else (case search fuel idx idBytes lo' hi' ((lo' + hi') div 2) of
                        None \<Rightarrow> None
                      | Some (ps, r) \<Rightarrow> Some (cnt # ps, r)))))"

text \<open>
  \<open>id[0]\<close> (the variables \<open>id\<close> and \<open>size\<close> are \<open>id'\<close> and \<open>size'\<close> here) is the first character of the
  hexadecimal string, not the first decoded byte, and panics on the empty string; \<open>4*id[0]\<close> is a product of bytes and wraps
  modulo 256.
\<close>

definition FindOffset_probes ::
  "nat \<Rightarrow> bytes \<Rightarrow> string \<Rightarrow> (uint32 list \<times> (error + uint32)) option"
where
  "FindOffset_probes fuel idx id' =
     (case hex_DecodeString id' of
        Inl e \<Rightarrow> Some ([], Inl e)
      | Inr idBytes \<Rightarrow>
         (case slice idx 8 1032 of
            Inl e \<Rightarrow> Some ([], Inl e)
          | Inr fan \<Rightarrow>
             (case Uint32_at fan 1020 of
                Inl e \<Rightarrow> Some ([], Inl e)
              | Inr size' \<Rightarrow>
                 if id' = [] then Some ([], Inl Panic)
                 else
                   (case Uint32_at fan (unat (4 * byte_of (id' ! 0))) of
                      Inl e \<Rightarrow> Some ([], Inl e)
                    | Inr cnt \<Rightarrow>
                       (case search fuel idx idBytes 0 size' cnt of
                          None \<Rightarrow> None
                        | Some (ps, Inl e) \<Rightarrow> Some (ps, Inl e)
                        | Some (ps, Inr loc) \<Rightarrow>
                           (let n = (loc - 1032) div 20;
                                offsetBase = 1032 + 20 * size' + 4 * size'
                            in case Uint32_at idx (unat (offsetBase + 4 * n)) of
                                 Inl e \<Rightarrow> Some (ps, Inl e)
                               | Inr offset \<Rightarrow> Some (ps, Inr offset)))))))"

definition FindOffset :: "nat \<Rightarrow> bytes \<Rightarrow> string \<Rightarrow> (error + uint32) option" where
  "FindOffset fuel idx id' = map_option snd (FindOffset_probes fuel idx id')"

section \<open>readRaw, readObject and LoadObject (pack.go, 156-261)\<close>

text \<open>
  The size loop of the entry header, \<open>for objHeader&0x80 != 0 { i++; objHeader = p.data[offset+i]; ... }\<close>.
  \<open>offset\<close>, \<open>i\<close> and \<open>shift\<close> are \<open>uint32\<close>; \<open>offset+i\<close> wraps, and a shift of 64 or
  more leaves \<open>objSize\<close> as it is. \<open>p.data[offset+i]\<close> panics out of range. On a file
  of \<open>2^32\<close> bytes or more whose bytes all have the high bit the loop never ends, so it
  runs on fuel.
\<close>

fun size_loop ::
  "nat \<Rightarrow> bytes \<Rightarrow> uint32 \<Rightarrow> byte \<Rightarrow> uint64 \<Rightarrow> uint32 \<Rightarrow> uint32 \<Rightarrow> (error + (uint64 \<times> uint32)) option"
where
  "size_loop 0 dat offset objHeader objSize i shift = None"
| "size_loop (Suc fuel) dat offset objHeader objSize i shift =
     (if objHeader AND 0x80 \<noteq> 0 then
        (let i' = i + 1 in
         if unat (offset + i') < length dat then
           (let objHeader' = dat ! unat (offset + i')
            in size_loop fuel dat offset objHeader'
                 (objSize OR push_bit (unat shift) (ucast (objHeader' AND 0x7F))) i' (shift + 7))
         else Some (Inl Panic))
      else Some (Inr (objSize, i)))"

text \<open>
  The offset loop of an ofs-delta entry,
  \<open>for b&0x80 != 0 { i++; b = p.data[offset+i]; baseOffset = ((baseOffset + 1) << 7) | uint32(b&0x7F) }\<close>.
\<close>

fun ofs_loop ::
  "nat \<Rightarrow> bytes \<Rightarrow> uint32 \<Rightarrow> byte \<Rightarrow> uint32 \<Rightarrow> uint32 \<Rightarrow> (error + (uint32 \<times> uint32)) option"
where
  "ofs_loop 0 dat offset b baseOffset i = None"
| "ofs_loop (Suc fuel) dat offset b baseOffset i =
     (if b AND 0x80 \<noteq> 0 then
        (let i' = i + 1 in
         if unat (offset + i') < length dat then
           (let b' = dat ! unat (offset + i')
            in ofs_loop fuel dat offset b'
                 (push_bit 7 (baseOffset + 1) OR ucast (b' AND 0x7F)) i')
         else Some (Inl Panic))
      else Some (Inr (baseOffset, i)))"

text \<open>
  The end of \<open>readRaw\<close>, from \<open>buf := bytes.NewReader(p.data[offset+i+1:])\<close> on.
  \<open>rawBase\<close> is \<open>None\<close> for Go's \<open>nil\<close>.
\<close>

definition readRaw_finish ::
  "zlib \<Rightarrow> bytes \<Rightarrow> uint32 \<Rightarrow> uint32 \<Rightarrow> nat \<Rightarrow> uint64 \<Rightarrow> reader option \<Rightarrow> error + (nat \<times> uint64 \<times> reader)"
where
  "readRaw_finish z dat offset i objType objSize rawBase =
     (case slice_from dat (unat (offset + i + 1)) of
        Inl e \<Rightarrow> Inl e
      | Inr buf \<Rightarrow>
         (case z buf of
            Inl e \<Rightarrow> Inl e
          | Inr r \<Rightarrow>
             (case rawBase of
                None \<Rightarrow> Inr (objType, objSize, r)
              | Some base_r \<Rightarrow>
                 (case applyDelta base_r r of
                    Inl e \<Rightarrow> Inl e
                  | Inr (r', objSize') \<Rightarrow> Inr (objType, objSize', r')))))"

text \<open>
  \<open>readRaw\<close> calls itself on the base of a delta entry. The source has no bound on the
  depth and an entry can name itself as its base, so the recursion runs on fuel;
  \<open>None\<close> is a call that does not return. The same fuel bounds the loops it enters.
  The constants \<open>_OBJ_OFS_DELTA\<close> and \<open>_OBJ_REF_DELTA\<close> are 6 and 7.
\<close>

fun readRaw ::
  "nat \<Rightarrow> zlib \<Rightarrow> Pack \<Rightarrow> uint32 \<Rightarrow> (error + (nat \<times> uint64 \<times> reader)) option"
where
  "readRaw 0 z p offset = None"
| "readRaw (Suc fuel) z p offset =
     (if unat offset < length (data p) then
        (let objHeader = data p ! unat offset;
             objType = objTypeOf objHeader
         in case size_loop fuel (data p) offset objHeader (objSizeLow objHeader) 0 4 of
              None \<Rightarrow> None
            | Some (Inl e) \<Rightarrow> Some (Inl e)
            | Some (Inr (objSize, i)) \<Rightarrow>
               if objType = 6 then
                 (let i1 = i + 1 in
                  if unat (offset + i1) < length (data p) then
                    (let b = data p ! unat (offset + i1)
                     in case ofs_loop fuel (data p) offset b (ucast (b AND 0x7F)) i1 of
                          None \<Rightarrow> None
                        | Some (Inl e) \<Rightarrow> Some (Inl e)
                        | Some (Inr (baseOffset, i2)) \<Rightarrow>
                           if baseOffset > of_nat (length (data p)) \<or> baseOffset > offset
                           then Some (Inl ErrBadDelta)
                           else
                             (case readRaw fuel z p (offset - baseOffset) of
                                None \<Rightarrow> None
                              | Some (Inl e) \<Rightarrow> Some (Inl e)
                              | Some (Inr (objType', objSize', rawBase)) \<Rightarrow>
                                 Some (readRaw_finish z (data p) offset i2 objType' objSize'
                                         (Some rawBase))))
                  else Some (Inl Panic))
               else if objType = 7 then
                 (case slice (data p) (unat (offset + i + 1)) (unat (offset + i + 21)) of
                    Inl e \<Rightarrow> Some (Inl e)
                  | Inr idb \<Rightarrow>
                     (let baseId = hex_EncodeToString idb;
                          i' = i + 20
                      in case FindOffset fuel (index p) baseId of
                           None \<Rightarrow> None
                         | Some (Inl e) \<Rightarrow> Some (Inl e)
                         | Some (Inr baseOffset) \<Rightarrow>
                            (case readRaw fuel z p baseOffset of
                               None \<Rightarrow> None
                             | Some (Inl e) \<Rightarrow> Some (Inl e)
                             | Some (Inr (objType', objSize', rawBase)) \<Rightarrow>
                                Some (readRaw_finish z (data p) offset i' objType' objSize'
                                        (Some rawBase)))))
               else Some (readRaw_finish z (data p) offset i objType objSize None))
      else Some (Inl Panic))"

declare readRaw.simps [simp del]




section \<open>Loose objects (object.go, 31-62; loose.go)\<close>










section \<open>The repository (repo.go)\<close>












section \<open>The fan-out window of the specification, and test data\<close>


text \<open>
  A version-2 index of two objects: the magic number, the fan-out table (\<open>cnt j\<close> is the
  number of ids whose first byte is at most \<open>j\<close>), the two ids, two CRC words, the two
  offsets and the two trailing checksums.
\<close>

definition magic :: bytes where
  "magic = [0xFF, 0x74, 0x4F, 0x63, 0, 0, 0, 2]"

definition mk_fan :: "(nat \<Rightarrow> byte) \<Rightarrow> bytes" where
  "mk_fan cnt = concat (map (\<lambda>j. [0, 0, 0, cnt j]) [0..<256])"

definition index2 :: "(nat \<Rightarrow> byte) \<Rightarrow> bytes \<Rightarrow> bytes \<Rightarrow> bytes \<Rightarrow> bytes \<Rightarrow> bytes" where
  "index2 cnt id0 id1 off0 off1 =
     magic @ mk_fan cnt @ id0 @ id1 @ replicate 8 0 @ off0 @ off1 @ replicate 40 0"

text \<open>
  Two ids, \<open>50 11 .. 11\<close> and \<open>60 22 .. 22\<close>, their fan-out counts, and the hexadecimal
  form of the second id and of an id, \<open>70 22 .. 22\<close>, that is not stored. \<open>idxG\<close> places
  the objects at offsets 12 and 18; \<open>idxH\<close> gives the second object an offset word with
  the high bit set.
\<close>

definition cntA :: "nat \<Rightarrow> byte" where
  "cntA j = (if j < 0x50 then 0 else if j < 0x60 then 1 else 2)"

definition idA0 :: bytes where "idA0 = 0x50 # replicate 19 0x11"
definition idA1 :: bytes where "idA1 = 0x60 # replicate 19 0x22"
definition idA2 :: bytes where "idA2 = 0x70 # replicate 19 0x22"

definition hexA0 :: string where "hexA0 = ''50'' @ concat (replicate 19 ''11'')"
definition hexA1 :: string where "hexA1 = ''60'' @ concat (replicate 19 ''22'')"
definition hexA2 :: string where "hexA2 = ''70'' @ concat (replicate 19 ''22'')"


definition idxH :: bytes where
  "idxH = index2 cntA idA0 idA1 [0, 0, 0, 12] [0x80, 0, 0, 1]"

text \<open>
  A stand-in for \<open>compress/zlib\<close> on test data: a stream is the byte \<open>78\<close>, a length
  byte and that many literal bytes; a stream cut short breaks off with an error.
\<close>

definition toy_zlib :: zlib where
  "toy_zlib buf =
     (case buf of
        c # l # rest \<Rightarrow>
          if c \<noteq> 0x78 then Inl ErrZlib
          else if unat l \<le> length rest then Inr (take (unat l) rest, None)
          else Inr (rest, Some ErrEOF)
      | _ \<Rightarrow> Inl ErrZlib)"









section \<open>Reference chains, and test data for them\<close>









section \<open>Properties\<close>

text \<open>
  C7. The type code taken from the first byte \<open>b\<close> of an entry is \<open>(b >> 4) & 7\<close> and
  the low size bits are \<open>b & 0x0F\<close>: the mask \<open>0x71\<close> of the source keeps bit 0 as well,
  but the shift by four that follows discards it.
\<close>

theorem objTypeOf_is_bits_4_to_6:
  "objTypeOf b = unat (drop_bit 4 b AND (7 :: byte)) \<and> objSizeLow b = ucast (b AND (0x0F :: byte))
   \<and> drop_bit 4 (b AND 0x71) = drop_bit 4 b AND (0x07 :: byte)"
proof -
  have "drop_bit 4 (b AND 0x71) = drop_bit 4 b AND (0x07 :: byte)"
    by (rule bit_word_eqI) (auto simp: bit_simps)
  then show ?thesis
    by (simp add: objTypeOf_def objSizeLow_def)
qed

subsection \<open>More fuel does not change a result\<close>









subsection \<open>The delta applier\<close>

lemma length_copy_at: "loc \<le> length result \<Longrightarrow> length (copy_at result loc src) = length result"
  by (auto simp: copy_at_def Let_def min_def)

lemma nth_copy_at_outside:
  assumes "loc \<le> length result" and "k < length result" and "k < loc \<or> loc + length src \<le> k"
  shows "copy_at result loc src ! k = result ! k"
  using assms by (auto simp: copy_at_def Let_def nth_append min_def)

lemma apply_loop_frame:
  "apply_loop base patch result loc = Inr (res, w) \<Longrightarrow>
     length res = length result \<and> loc \<le> w \<and>
     (\<forall>k < length res. k < loc \<or> w \<le> k \<longrightarrow> res ! k = result ! k)"
proof (induction base patch result loc rule: apply_loop.induct)
  case (1 base patch result loc)
  note run = "1.prems"
  show ?case
  proof (cases "length patch > 0")
    case False
    with run show ?thesis by (simp add: apply_loop.simps)
  next
    case nonempty: True
    define op where "op = patch ! 0"
    from run nonempty have nz: "op \<noteq> 0"
      by (subst (asm) apply_loop.simps) (auto simp: op_def Let_def)
    show ?thesis
    proof (cases "op AND 0x80 = 0")
      case insert: True
      define n where "n = unat op"
      define result' where "result' = copy_at result loc (take n (drop 1 patch))"
      from run nonempty nz insert
      have inb: "loc \<le> length result" and fits: "1 + n \<le> length patch"
        and rest: "apply_loop base (drop (1 + n) patch) result' (loc + n) = Inr (res, w)"
        by (subst (asm) apply_loop.simps; simp add: op_def n_def result'_def Let_def split: if_splits)+
      from "1.IH"(1) [OF nonempty op_def nz insert n_def _ _ rest [unfolded result'_def]]
        inb fits
      have ih: "length res = length result'" "loc + n \<le> w"
        "\<forall>k < length res. k < loc + n \<or> w \<le> k \<longrightarrow> res ! k = result' ! k"
        by (auto simp: result'_def op_def)
      have len: "length result' = length result"
        using inb by (simp add: result'_def length_copy_at)
      have src: "length (take n (drop 1 patch)) = n"
        using fits by simp
      have "res ! k = result ! k" if "k < length res" and "k < loc \<or> w \<le> k" for k
      proof -
        from that ih have "res ! k = result' ! k" by auto
        also have "result' ! k = result ! k"
          unfolding result'_def
          using that ih(1,2) len inb src by (intro nth_copy_at_outside) auto
        finally show ?thesis .
      qed
      with ih len show ?thesis by auto
    next
      case copy: False
      from run nonempty nz copy
      obtain i copyOffset i' copyLength0 where
        f1: "read_field op patch 0 [0, 1, 2, 3] 1 0 = Inr (i, copyOffset)" and
        f2: "read_field op patch 4 [0, 1, 2] i 0 = Inr (i', copyLength0)"
        by (subst (asm) apply_loop.simps)
           (auto simp: op_def Let_def simp del: read_field.simps split: if_splits sum.splits)
      define copyLength where "copyLength = (if copyLength0 = 0 then 2 ^ 16 else copyLength0)"
      define result' where
        "result' = copy_at result loc (take copyLength (drop copyOffset base))"
      from run nonempty nz copy f1 f2
      have inbase: "copyOffset + copyLength \<le> length base" and inb: "loc \<le> length result"
        and room: "copyLength \<le> length result - loc"
        and rest: "apply_loop base (drop i' patch) result' (loc + copyLength) = Inr (res, w)"
        by (subst (asm) apply_loop.simps;
            simp add: op_def copyLength_def result'_def Let_def del: read_field.simps
                 split: if_splits)+
      from "1.IH"(2) [OF nonempty op_def nz copy f1 refl f2 refl
          copyLength_def _ _ _ rest [unfolded result'_def]] inbase inb room
      have ih: "length res = length result'" "loc + copyLength \<le> w"
        "\<forall>k < length res. k < loc + copyLength \<or> w \<le> k \<longrightarrow> res ! k = result' ! k"
        by (auto simp: result'_def)
      have len: "length result' = length result"
        using inb by (simp add: result'_def length_copy_at)
      have src: "length (take copyLength (drop copyOffset base)) = copyLength"
        using inbase by simp
      have "res ! k = result ! k" if "k < length res" and "k < loc \<or> w \<le> k" for k
      proof -
        from that ih have "res ! k = result' ! k" by auto
        also have "result' ! k = result ! k"
          unfolding result'_def
          using that ih(1,2) len inb src by (intro nth_copy_at_outside) auto
        finally show ?thesis .
      qed
      with ih len show ?thesis by auto
    qed
  qed
qed

lemma copy_at_append:
  "loc + length src \<le> length result \<Longrightarrow>
     copy_at (result @ ext) loc src = copy_at result loc src @ ext"
proof -
  assume a: "loc + length src \<le> length result"
  then have "min (length (result @ ext) - loc) (length src) = length src"
    and "min (length result - loc) (length src) = length src"
    by auto
  with a show ?thesis
    by (simp add: copy_at_def Let_def)
qed

lemma apply_loop_extend:
  "apply_loop base patch result loc = Inr (res, w) \<Longrightarrow> w \<le> length result \<Longrightarrow>
     apply_loop base patch (result @ ext) loc = Inr (res @ ext, w)"
proof (induction base patch result loc rule: apply_loop.induct)
  case (1 base patch result loc)
  note run = "1.prems"(1) and wb = "1.prems"(2)
  show ?case
  proof (cases "length patch > 0")
    case False
    with run show ?thesis by (simp add: apply_loop.simps)
  next
    case nonempty: True
    define op where "op = patch ! 0"
    from run nonempty have nz: "op \<noteq> 0"
      by (subst (asm) apply_loop.simps) (auto simp: op_def Let_def)
    show ?thesis
    proof (cases "op AND 0x80 = 0")
      case insert: True
      define n where "n = unat op"
      define result' where "result' = copy_at result loc (take n (drop 1 patch))"
      from run nonempty nz insert
      have inb: "loc \<le> length result" and fits: "1 + n \<le> length patch"
        and rest: "apply_loop base (drop (1 + n) patch) result' (loc + n) = Inr (res, w)"
        by (subst (asm) apply_loop.simps; simp add: op_def n_def result'_def Let_def split: if_splits)+
      have len: "length result' = length result"
        using inb by (simp add: result'_def length_copy_at)
      from apply_loop_frame [OF rest] have "loc + n \<le> w" by simp
      with wb fits have ext: "copy_at (result @ ext) loc (take n (drop 1 patch)) = result' @ ext"
        by (simp add: result'_def copy_at_append)
      from "1.IH"(1) [OF nonempty op_def nz insert n_def _ _ rest [unfolded result'_def]]
        inb fits wb len
      have "apply_loop base (drop (1 + n) patch) (result' @ ext) (loc + n) = Inr (res @ ext, w)"
        by (simp add: result'_def)
      with nonempty nz insert inb fits ext show ?thesis
        by (subst apply_loop.simps) (simp add: op_def n_def Let_def)
    next
      case copy: False
      from run nonempty nz copy
      obtain i copyOffset i' copyLength0 where
        f1: "read_field op patch 0 [0, 1, 2, 3] 1 0 = Inr (i, copyOffset)" and
        f2: "read_field op patch 4 [0, 1, 2] i 0 = Inr (i', copyLength0)"
        by (subst (asm) apply_loop.simps)
           (auto simp: op_def Let_def simp del: read_field.simps split: if_splits sum.splits)
      define copyLength where "copyLength = (if copyLength0 = 0 then 2 ^ 16 else copyLength0)"
      define result' where
        "result' = copy_at result loc (take copyLength (drop copyOffset base))"
      from run nonempty nz copy f1 f2
      have inbase: "copyOffset + copyLength \<le> length base" and inb: "loc \<le> length result"
        and room: "copyLength \<le> length result - loc"
        and rest: "apply_loop base (drop i' patch) result' (loc + copyLength) = Inr (res, w)"
        by (subst (asm) apply_loop.simps;
            simp add: op_def copyLength_def result'_def Let_def del: read_field.simps
                 split: if_splits)+
      have len: "length result' = length result"
        using inb by (simp add: result'_def length_copy_at)
      from inbase inb room
      have ext: "copy_at (result @ ext) loc (take copyLength (drop copyOffset base)) = result' @ ext"
        by (simp add: result'_def copy_at_append)
      from "1.IH"(2) [OF nonempty op_def nz copy f1 refl f2 refl
          copyLength_def _ _ _ rest [unfolded result'_def]] inbase inb room wb len
      have "apply_loop base (drop i' patch) (result' @ ext) (loc + copyLength) = Inr (res @ ext, w)"
        by (simp add: result'_def)
      with nonempty nz copy inbase inb room ext f1 f2 show ?thesis
        by (subst apply_loop.simps)
           (simp add: op_def copyLength_def Let_def del: read_field.simps)
    qed
  qed
qed


text \<open>
  C9. When \<open>applyDelta\<close> succeeds, the bytes it returns number exactly the result length
  decoded from the second varint of the delta, and every position from the final write
  cursor on, which no instruction has written, holds a zero byte.
\<close>

theorem applyDelta_length_and_zero_fill:
  assumes "applyDelta base_r patch_r = Inr (r, resultLength)"
  shows "\<exists>base patch baseLength n n' result loc.
           ReadAll base_r = Inr base \<and> ReadAll patch_r = Inr patch \<and>
           decodeVarint patch = Inr (baseLength, n) \<and>
           decodeVarint (drop n patch) = Inr (resultLength, n') \<and>
           applyDelta_bytes base patch = Inr (result, resultLength, loc) \<and>
           ReadAll r = Inr result \<and> length result = unat resultLength \<and>
           (\<forall>k. loc \<le> k \<and> k < length result \<longrightarrow> result ! k = 0)"
proof -
  from assms obtain base patch result loc where
    io: "ReadAll base_r = Inr base" "ReadAll patch_r = Inr patch" and
    run: "applyDelta_bytes base patch = Inr (result, resultLength, loc)" and
    r: "ReadAll r = Inr result"
    by (auto simp: applyDelta_def ReadAll_def split: sum.splits)
  from run obtain baseLength n n' where
    v1: "decodeVarint patch = Inr (baseLength, n)" and
    v2: "decodeVarint (drop n patch) = Inr (resultLength, n')" and
    loop: "apply_loop base (drop n' (drop n patch)) (replicate (unat resultLength) 0) 0
             = Inr (result, loc)"
    by (auto simp: applyDelta_bytes_def make_bytes_def Let_def split: sum.splits if_splits)
  from apply_loop_frame [OF loop]
  have "length result = unat resultLength"
    and "\<forall>k. loc \<le> k \<and> k < length result \<longrightarrow> result ! k = 0"
    by auto
  with io run r v1 v2 show ?thesis by blast
qed

theorem applyDelta_length_and_zero_fill_witness:
  "applyDelta ([1, 2, 3], None) ([3, 6, 0x90, 3, 1, 9], None) = Inr (([1, 2, 3, 9, 0, 0], None), 6) \<and>
   applyDelta_bytes [1, 2, 3] [3, 6, 0x90, 3, 1, 9] = Inr ([1, 2, 3, 9, 0, 0], 6, 4) \<and>
   (\<exists>base patch baseLength n n' result loc.
      ReadAll ([1, 2, 3], None) = Inr base \<and> ReadAll ([3, 6, 0x90, 3, 1, 9], None) = Inr patch \<and>
      decodeVarint patch = Inr (baseLength, n) \<and>
      decodeVarint (drop n patch) = Inr (6, n') \<and>
      applyDelta_bytes base patch = Inr (result, 6, loc) \<and>
      ReadAll ([1, 2, 3, 9, 0, 0], None) = Inr result \<and> length result = unat (6 :: uint64) \<and>
      (\<forall>k. loc \<le> k \<and> k < length result \<longrightarrow> result ! k = 0))"
proof -
  have run: "applyDelta ([1, 2, 3], None) ([3, 6, 0x90, 3, 1, 9], None)
               = Inr (([1, 2, 3, 9, 0, 0], None), 6)"
    by code_simp
  have cur: "applyDelta_bytes [1, 2, 3] [3, 6, 0x90, 3, 1, 9] = Inr ([1, 2, 3, 9, 0, 0], 6, 4)"
    by code_simp
  from applyDelta_length_and_zero_fill [OF run] run cur show ?thesis
    by simp
qed

text \<open>
  C5. The source has no test of the write cursor after the loop. The claim fails on the
  delta \<open>03 06 90 03 01 09\<close> over the base \<open>01 02 03\<close>: it declares six result bytes,
  its two instructions write four, and it is accepted with a cursor of 4.
\<close>

theorem applyDelta_short_stream_counterexample:
  "applyDelta_bytes [1, 2, 3] [3, 6, 0x90, 3, 1, 9] = Inr ([1, 2, 3, 9, 0, 0], 6, 4) \<and>
   applyDelta ([1, 2, 3], None) ([3, 6, 0x90, 3, 1, 9], None) = Inr (([1, 2, 3, 9, 0, 0], None), 6) \<and>
   (4 :: nat) \<noteq> unat (6 :: uint64)"
  by code_simp

text \<open>
  C5, as the code has it. Success does not depend on the cursor reaching the result
  length: a delta that is accepted with its cursor inside the buffer is accepted for
  every larger declared result length that \<open>make\<close> allocates (one of at most
  \<open>maxAlloc\<close>), with the same instruction stream and the same cursor, and the
  bytes it does not write are zero.
\<close>

theorem applyDelta_accepts_longer_result_length:
  assumes "decodeVarint patch = Inr (baseLength, n)"
    and "decodeVarint (drop n patch) = Inr (resultLength, n')"
    and "decodeVarint patch' = Inr (baseLength, m)"
    and "decodeVarint (drop m patch') = Inr (resultLength', m')"
    and "drop m' (drop m patch') = drop n' (drop n patch)"
    and "applyDelta_bytes base patch = Inr (result, resultLength, loc)"
    and "loc \<le> unat resultLength"
    and "unat resultLength \<le> unat resultLength'"
    and "resultLength' \<le> maxAlloc"
  shows "applyDelta_bytes base patch' =
           Inr (result @ replicate (unat resultLength' - unat resultLength) 0, resultLength', loc)"
proof -
  from assms(1,2,6)
  have bl: "baseLength = of_nat (length base)" and
    loop: "apply_loop base (drop n' (drop n patch)) (replicate (unat resultLength) 0) 0
             = Inr (result, loc)"
    by (auto simp: applyDelta_bytes_def make_bytes_def Let_def split: sum.splits if_splits)
  from assms(8) have split:
    "replicate (unat resultLength') (0 :: byte) =
       replicate (unat resultLength) 0 @ replicate (unat resultLength' - unat resultLength) 0"
    by (simp add: replicate_add [symmetric])
  from apply_loop_extend [OF loop, of "replicate (unat resultLength' - unat resultLength) 0"] assms(7)
  have "apply_loop base (drop n' (drop n patch)) (replicate (unat resultLength') 0) 0
          = Inr (result @ replicate (unat resultLength' - unat resultLength) 0, loc)"
    by (simp add: split)
  with assms(3,4,5,9) bl show ?thesis
    by (simp add: applyDelta_bytes_def make_bytes_def Let_def)
qed

theorem applyDelta_accepts_longer_result_length_witness:
  "decodeVarint [3, 4, 0x90, 3, 1, 9] = Inr (3, 1) \<and>
   decodeVarint (drop 1 [3, 4, 0x90, 3, 1, 9]) = Inr (4, 1) \<and>
   decodeVarint [3, 6, 0x90, 3, 1, 9] = Inr (3, 1) \<and>
   decodeVarint (drop 1 [3, 6, 0x90, 3, 1, 9]) = Inr (6, 1) \<and>
   drop 1 (drop 1 [3, 6, 0x90, 3, 1, 9 :: byte]) = drop 1 (drop 1 [3, 4, 0x90, 3, 1, 9]) \<and>
   applyDelta_bytes [1, 2, 3] [3, 4, 0x90, 3, 1, 9] = Inr ([1, 2, 3, 9], 4, 4) \<and>
   (4 :: nat) \<le> unat (4 :: uint64) \<and> unat (4 :: uint64) \<le> unat (6 :: uint64) \<and>
   (6 :: uint64) \<le> maxAlloc \<and>
   applyDelta_bytes [1, 2, 3] [3, 6, 0x90, 3, 1, 9] = Inr ([1, 2, 3, 9] @ replicate 2 0, 6, 4)"
proof -
  have a: "decodeVarint [3, 4, 0x90, 3, 1, 9] = Inr (3, 1)"
    and b: "decodeVarint (drop 1 [3, 4, 0x90, 3, 1, 9]) = Inr (4, 1)"
    and c: "decodeVarint [3, 6, 0x90, 3, 1, 9] = Inr (3, 1)"
    and d: "decodeVarint (drop 1 [3, 6, 0x90, 3, 1, 9]) = Inr (6, 1)"
    and e: "drop 1 (drop 1 [3, 6, 0x90, 3, 1, 9 :: byte]) = drop 1 (drop 1 [3, 4, 0x90, 3, 1, 9])"
    and f: "applyDelta_bytes [1, 2, 3] [3, 4, 0x90, 3, 1, 9] = Inr ([1, 2, 3, 9], 4, 4)"
    and g: "(4 :: nat) \<le> unat (4 :: uint64)" and h: "unat (4 :: uint64) \<le> unat (6 :: uint64)"
    and i: "(6 :: uint64) \<le> maxAlloc"
    by code_simp+
  from applyDelta_accepts_longer_result_length [OF a b c d e f g h i] a b c d e f g h i
  show ?thesis by simp
qed

subsection \<open>Out-of-range accesses\<close>







subsection \<open>An ofs-delta entry whose base offset is zero\<close>

text \<open>
  C4. The test before the recursive call is
  \<open>baseOffset > uint32(len(p.data)) || baseOffset > offset\<close>; a base offset of zero
  passes it, and \<open>readRaw\<close> is then called on the entry's own offset. For an ofs-delta
  entry with a one-byte header followed by the byte \<open>00\<close> the call never returns: no
  amount of fuel yields a result, where the claim has \<open>ErrBadDelta\<close>.
\<close>

theorem readRaw_zero_base_offset_never_returns:
  assumes "unat offset < length (data p)" and "unat (offset + 1) < length (data p)"
    and "objTypeOf (data p ! unat offset) = 6" and "data p ! unat offset AND 0x80 = 0"
    and "data p ! unat (offset + 1) = 0"
  shows "readRaw fuel z p offset = None"
proof (induction fuel)
  case 0
  show ?case by (simp add: readRaw.simps)
next
  case (Suc fuel)
  define h where "h = data p ! unat offset"
  from assms(3,4) have t: "objTypeOf h = 6" and nc: "h AND 0x80 = 0"
    by (simp_all add: h_def)
  show ?case
  proof (cases fuel)
    case 0
    with assms(1) show ?thesis by (simp add: readRaw.simps h_def [symmetric] Let_def)
  next
    case f: (Suc f)
    from nc have s: "size_loop (Suc f) (data p) offset h (objSizeLow h) 0 4
                       = Some (Inr (objSizeLow h, 0))"
      by simp
    have b: "ofs_loop (Suc f) (data p) offset 0 0 1 = Some (Inr (0, 1))"
      by simp
    from Suc.IH assms(1,2,5) show ?thesis
      unfolding f
      by (subst readRaw.simps) (simp add: h_def [symmetric] t s b Let_def del: size_loop.simps ofs_loop.simps)
  qed
qed

theorem readRaw_zero_base_offset_never_returns_witness:
  "unat (0 :: uint32) < length (data \<lparr>index = [], data = [0x60, 0x00]\<rparr>) \<and>
   unat (0 + 1 :: uint32) < length (data \<lparr>index = [], data = [0x60, 0x00]\<rparr>) \<and>
   objTypeOf (data \<lparr>index = [], data = [0x60, 0x00]\<rparr> ! unat (0 :: uint32)) = 6 \<and>
   data \<lparr>index = [], data = [0x60, 0x00]\<rparr> ! unat (0 :: uint32) AND 0x80 = 0 \<and>
   data \<lparr>index = [], data = [0x60, 0x00]\<rparr> ! unat (0 + 1 :: uint32) = 0 \<and>
   (\<forall>fuel. readRaw fuel toy_zlib \<lparr>index = [], data = [0x60, 0x00]\<rparr> 0 = None)"
proof -
  have a: "unat (0 :: uint32) < length (data \<lparr>index = [], data = [0x60, 0x00]\<rparr>)"
    and b: "unat (0 + 1 :: uint32) < length (data \<lparr>index = [], data = [0x60, 0x00]\<rparr>)"
    and c: "objTypeOf (data \<lparr>index = [], data = [0x60, 0x00]\<rparr> ! unat (0 :: uint32)) = 6"
    and d: "data \<lparr>index = [], data = [0x60, 0x00]\<rparr> ! unat (0 :: uint32) AND 0x80 = 0"
    and e: "data \<lparr>index = [], data = [0x60, 0x00]\<rparr> ! unat (0 + 1 :: uint32) = 0"
    by (simp_all add: objTypeOf_def)
  from readRaw_zero_base_offset_never_returns [OF a b c d e] a b c d e show ?thesis
    by blast
qed

subsection \<open>The lookup in the index\<close>

lemma length_magic [simp]: "length magic = 8"
  by (simp add: magic_def)

lemma length_chunks: "length (concat (map (\<lambda>j. [0, 0, 0, cnt j :: byte]) [0..<m])) = 4 * m"
  by (induction m) auto

lemma length_mk_fan [simp]: "length (mk_fan cnt) = 1024"
  by (simp add: mk_fan_def length_chunks)

lemma nth_chunks:
  "j < m \<Longrightarrow> r < 4 \<Longrightarrow>
     concat (map (\<lambda>j. [0, 0, 0, cnt j :: byte]) [0..<m]) ! (4 * j + r) = [0, 0, 0, cnt j] ! r"
proof (induction m)
  case 0
  then show ?case by simp
next
  case (Suc m)
  show ?case
  proof (cases "j < m")
    case True
    with Suc show ?thesis by (simp add: nth_append length_chunks)
  next
    case False
    with Suc.prems have "j = m" by simp
    with Suc.prems show ?thesis by (simp add: nth_append length_chunks)
  qed
qed

lemma Uint32_at_mk_fan:
  assumes "j < 256"
  shows "Uint32_at (mk_fan cnt) (4 * j) = Inr (ucast (cnt j))"
proof -
  have n: "drop (4 * j) (mk_fan cnt) ! r = [0, 0, 0, cnt j] ! r" if "r < 4" for r
    using assms that by (simp add: mk_fan_def nth_chunks length_chunks)
  from n [of 0] n [of 1] n [of 2] n [of 3] assms show ?thesis
    by (simp add: Uint32_at_def slice_from_def Uint32_def)
qed

lemma bytes_Compare_same [simp]: "bytes_Compare xs xs = 0"
  by (induction xs) auto

lemma Uint32_append: "length a = 4 \<Longrightarrow> Uint32 (a @ b) = Uint32 a"
  by (simp add: Uint32_def nth_append)



lemma index2_slices:
  assumes "length id0 = 20" and "length id1 = 20" and "length off0 = 4" and "length off1 = 4"
  shows "slice (index2 cnt id0 id1 off0 off1) 8 1032 = Inr (mk_fan cnt)"
    and "slice (index2 cnt id0 id1 off0 off1) 1032 1052 = Inr id0"
    and "slice (index2 cnt id0 id1 off0 off1) 1052 1072 = Inr id1"
    and "Uint32_at (index2 cnt id0 id1 off0 off1) 1080 = Uint32 off0"
    and "Uint32_at (index2 cnt id0 id1 off0 off1) 1084 = Uint32 off1"
  using assms
  by (simp_all add: index2_def slice_def Uint32_at_def slice_from_def Uint32_append)


lemma idxH_slices:
  "slice idxH 8 1032 = Inr (mk_fan cntA)"
  "slice idxH 1032 1052 = Inr idA0"
  "slice idxH 1052 1072 = Inr idA1"
  "Uint32_at idxH 1080 = Inr 12"
  "Uint32_at idxH 1084 = Inr 0x80000001"
  by (simp_all add: idxH_def index2_slices idA0_def idA1_def Uint32_def)

lemma fanA_entries:
  "Uint32_at (mk_fan cntA) 1020 = Inr 2"
  "Uint32_at (mk_fan cntA) 212 = Inr 0"
  "Uint32_at (mk_fan cntA) 216 = Inr 0"
  "Uint32_at (mk_fan cntA) 220 = Inr 0"
  "Uint32_at (mk_fan cntA) 380 = Inr 1"
  "Uint32_at (mk_fan cntA) 384 = Inr 2"
  "Uint32_at (mk_fan cntA) 444 = Inr 2"
  "Uint32_at (mk_fan cntA) 448 = Inr 2"
  using Uint32_at_mk_fan [of 255 cntA] Uint32_at_mk_fan [of 53 cntA]
    Uint32_at_mk_fan [of 54 cntA] Uint32_at_mk_fan [of 55 cntA]
    Uint32_at_mk_fan [of 95 cntA] Uint32_at_mk_fan [of 96 cntA]
    Uint32_at_mk_fan [of 111 cntA] Uint32_at_mk_fan [of 112 cntA]
  by (simp_all add: cntA_def)

lemma hexA_decode:
  "hex_DecodeString hexA0 = Inr idA0"
  "hex_DecodeString hexA1 = Inr idA1"
  "hex_DecodeString hexA2 = Inr idA2"
  "hexA0 \<noteq> []" "hexA1 \<noteq> []" "hexA2 \<noteq> []"
  "unat (4 * byte_of (hexA0 ! 0)) = 212"
  "unat (4 * byte_of (hexA1 ! 0)) = 216"
  "unat (4 * byte_of (hexA2 ! 0)) = 220"
  by (code_simp+)

lemma cmpA:
  "bytes_Compare idA1 idA0 = 1"
  "bytes_Compare idA2 idA0 = 1"
  "bytes_Compare idA2 idA1 = 1"
  by (code_simp+)












text \<open>
  C3. The source returns the word of the offset table as it stands
  (\<open>// TODO: check for 64-bit offset\<close>). In the index \<open>idxH\<close> the offset word of the id
  \<open>60 22 .. 22\<close> is \<open>80 00 00 01\<close>, and the lookup returns \<open>0x80000001\<close> as the offset.
\<close>

theorem FindOffset_returns_high_bit_offset:
  "slice idxH 1052 1072 = Inr idA1 \<and> hex_DecodeString hexA1 = Inr idA1 \<and>
   Uint32_at idxH 1084 = Inr 0x80000001 \<and>
   FindOffset (Suc (Suc 0)) idxH hexA1 = Some (Inr 0x80000001)"
proof -
  have "search (Suc (Suc 0)) idxH idA1 0 2 0 = Some ([0, 1], Inr 1052)"
    by (simp add: idxH_slices cmpA Let_def word_le_nat_alt)
  then have "FindOffset_probes (Suc (Suc 0)) idxH hexA1 = Some ([0, 1], Inr 0x80000001)"
    by (simp add: FindOffset_probes_def hexA_decode idxH_slices fanA_entries del: search.simps)
  then show ?thesis
    by (simp add: FindOffset_def idxH_slices hexA_decode)
qed

subsection \<open>The size of a loaded object\<close>














subsection \<open>The base of a ref-delta entry\<close>












subsection \<open>Resolving references\<close>










end
